theory Spec2Isabelle
  imports Main "HOL-Library.Word"
begin

unbundle bit_operations_syntax

text \<open>
  A verification development for the RP2350 hacking challenge 2 repository: the RCP
  stub header of the emulation build, and the block loop of the decryption routine
  as the specification describes it.
\<close>

section \<open>The RCP stub header of the emulation build\<close>

text \<open>
  \<^verbatim>\<open>emulation/include/hardware/rcp.h\<close> defines, for the assembler, one macro per RCP
  (redundancy coprocessor) check. Each \<^verbatim>\<open>.macro\<close> ... \<^verbatim>\<open>.endm\<close> pair of the header is one
  constructor below, under the header's own name and in the header's order.
\<close>

datatype rcp_macro =
    rcp_bvalid | rcp_bvalid_nodelay
  | rcp_btrue | rcp_btrue_nodelay
  | rcp_bfalse | rcp_bfalse_nodelay
  | rcp_b2valid | rcp_b2valid_nodelay
  | rcp_b2and | rcp_b2and_nodelay
  | rcp_b2or | rcp_b2or_nodelay
  | rcp_bxorvalid | rcp_bxorvalid_nodelay
  | rcp_bxortrue | rcp_bxortrue_nodelay
  | rcp_bxorfalse | rcp_bxorfalse_nodelay
  | rcp_ivalid | rcp_ivalid_nodelay
  | rcp_iequal | rcp_iequal_nodelay
  | rcp_count_set | rcp_count_set_nodelay
  | rcp_count_check | rcp_count_check_nodelay
  | rcp_canary_get | rcp_canary_get_nodelay
  | rcp_canary_check | rcp_canary_check_nodelay
  | rcp_panic

text \<open>
  A machine instruction is either an ordinary instruction of the program (the type
  parameter) or the one instruction the header itself writes: \<^verbatim>\<open>b .\<close>, a branch to its
  own address.
\<close>

datatype 'i instr = Op 'i | B_self

text \<open>The formal parameters each macro declares (the names after the macro's name).\<close>

fun macro_params :: "rcp_macro \<Rightarrow> string list" where
  "macro_params rcp_bvalid = [''r'']"
| "macro_params rcp_bvalid_nodelay = [''r'']"
| "macro_params rcp_btrue = [''r'']"
| "macro_params rcp_btrue_nodelay = [''r'']"
| "macro_params rcp_bfalse = [''r'']"
| "macro_params rcp_bfalse_nodelay = [''r'']"
| "macro_params rcp_b2valid = [''b0'', ''b1'']"
| "macro_params rcp_b2valid_nodelay = [''b0'', ''b1'']"
| "macro_params rcp_b2and = [''b0'', ''b1'']"
| "macro_params rcp_b2and_nodelay = [''b0'', ''b1'']"
| "macro_params rcp_b2or = [''b0'', ''b1'']"
| "macro_params rcp_b2or_nodelay = [''b0'', ''b1'']"
| "macro_params rcp_bxorvalid = [''b'', ''mask'']"
| "macro_params rcp_bxorvalid_nodelay = [''b'', ''mask'']"
| "macro_params rcp_bxortrue = [''b'', ''mask'']"
| "macro_params rcp_bxortrue_nodelay = [''b'', ''mask'']"
| "macro_params rcp_bxorfalse = [''b'', ''mask'']"
| "macro_params rcp_bxorfalse_nodelay = [''b'', ''mask'']"
| "macro_params rcp_ivalid = [''x'', ''parity'']"
| "macro_params rcp_ivalid_nodelay = [''x'', ''parity'']"
| "macro_params rcp_iequal = [''x'', ''y'']"
| "macro_params rcp_iequal_nodelay = [''x'', ''y'']"
| "macro_params rcp_count_set = [''cnt'']"
| "macro_params rcp_count_set_nodelay = [''cnt'']"
| "macro_params rcp_count_check = [''cnt'']"
| "macro_params rcp_count_check_nodelay = [''cnt'']"
| "macro_params rcp_canary_get = [''x'', ''tag'']"
| "macro_params rcp_canary_get_nodelay = [''x'', ''tag'']"
| "macro_params rcp_canary_check = [''x'', ''tag'']"
| "macro_params rcp_canary_check_nodelay = [''x'', ''tag'']"
| "macro_params rcp_panic = []"

text \<open>
  The body of each macro: what stands between \<^verbatim>\<open>.macro\<close> and \<^verbatim>\<open>.endm\<close>. Only
  \<^verbatim>\<open>rcp_panic\<close> has one, the single instruction \<^verbatim>\<open>b .\<close>; no body mentions a parameter.
\<close>

fun macro_body :: "rcp_macro \<Rightarrow> 'i instr list" where
  "macro_body rcp_panic = [B_self]"
| "macro_body _ = []"

text \<open>
  A line of assembly source is an ordinary instruction or the invocation of an RCP
  macro with its operands. The assembler replaces an invocation by the macro's body.
\<close>

datatype 'i line = Instr 'i | Rcp rcp_macro "string list"

fun expand_line :: "'i line \<Rightarrow> 'i instr list" where
  "expand_line (Instr i) = [Op i]"
| "expand_line (Rcp m args) = macro_body m"

definition assemble :: "'i line list \<Rightarrow> 'i instr list" where
  "assemble prog = concat (map expand_line prog)"

text \<open>The address (in instructions) that source line \<open>k\<close> is assembled at.\<close>

definition address :: "'i line list \<Rightarrow> nat \<Rightarrow> nat" where
  "address prog k = length (assemble (take k prog))"

text \<open>
  The same source with every RCP check deleted: all invocations go except those of
  \<^verbatim>\<open>rcp_panic\<close>, which is no check but the place a failed check jumps to.
\<close>

fun is_rcp_check :: "'i line \<Rightarrow> bool" where
  "is_rcp_check (Instr i) = False"
| "is_rcp_check (Rcp m args) = (m \<noteq> rcp_panic)"

definition strip_checks :: "'i line list \<Rightarrow> 'i line list" where
  "strip_checks prog = filter (\<lambda>l. \<not> is_rcp_check l) prog"

text \<open>
  Running assembled code. An ordinary instruction either returns to the caller or goes
  on at some address with a new state; what it does is a parameter. \<^verbatim>\<open>b .\<close> goes on at
  its own address with the state unchanged. The run is bounded by fuel: \<open>Running\<close> says
  the code had not returned when the fuel was spent.
\<close>

datatype 's outcome = Return 's | Goto nat 's

datatype 's run_result = Returned 's | Escaped nat 's | Running

fun run :: "('i \<Rightarrow> nat \<Rightarrow> 's \<Rightarrow> 's outcome) \<Rightarrow> 'i instr list \<Rightarrow> nat \<Rightarrow> nat \<Rightarrow> 's \<Rightarrow> 's run_result" where
  "run sem code 0 pc s = Running"
| "run sem code (Suc fuel) pc s =
     (if length code \<le> pc then Escaped pc s
      else case code ! pc of
             B_self \<Rightarrow> run sem code fuel pc s
           | Op i \<Rightarrow> (case sem i pc s of
                        Return s' \<Rightarrow> Returned s'
                      | Goto pc' s' \<Rightarrow> run sem code fuel pc' s'))"

section \<open>The block loop\<close>

text \<open>
  The routine \<^verbatim>\<open>decrypt\<close> itself is assembly (\<^verbatim>\<open>aes.S\<close>) that the sources at hand do not
  include. This section is written from the specification (sections 3, 4.3 and 6). It
  covers the loop over the blocks only. The block scheduler is taken by its contract,
  the permutation it hands to the loop; how the scheduler computes the permutation,
  the checks on the arguments, the key expansion and the masked round pipeline are
  not modelled.
\<close>

type_synonym byte = "8 word"

type_synonym block = "128 word"

text \<open>
  Modelled from the spec: the initial counter (missing with \<^verbatim>\<open>aes.S\<close>). The second and
  third argument of \<^verbatim>\<open>decrypt\<close> are the two shares of the IV (the emulator's README
  passes \<^verbatim>\<open>create_iv_shares(iv)\<close> there), and shares combine by XOR.
\<close>

definition initial_counter :: "block \<Rightarrow> block \<Rightarrow> block" where
  "initial_counter salt pub = salt XOR pub"

text \<open>
  Modelled from the spec: one pass of the block loop of \<^verbatim>\<open>decrypt\<close> (missing with
  \<^verbatim>\<open>aes.S\<close>). \<open>perm\<close> is the permutation drawn for the call, the block scheduler's
  output, evaluated at one index. At physical position \<open>p\<close> the logical block \<open>perm p\<close> is
  visited: its keystream is made from the counter \<open>IV0 + perm p\<close> and XORed into slot
  \<open>perm p\<close> of the block array. The round pipeline that turns key material and a
  counter into a keystream block is the parameter \<open>pipeline\<close>. The state is the block
  array and the list of slots visited so far.
\<close>

definition decrypt_step ::
    "(nat \<Rightarrow> nat) \<Rightarrow> (byte list \<Rightarrow> block \<Rightarrow> block) \<Rightarrow> byte list \<Rightarrow> block \<Rightarrow> nat \<Rightarrow>
     (nat \<Rightarrow> block) \<times> nat list \<Rightarrow> (nat \<Rightarrow> block) \<times> nat list" where
  "decrypt_step perm pipeline key iv0 p st =
     (let j = perm p;
          blocks = fst st
      in (blocks(j := blocks j XOR pipeline key (iv0 + of_nat j)), snd st @ [j]))"

text \<open>
  Modelled from the spec: the block loop of \<^verbatim>\<open>decrypt\<close> stopped after the physical
  positions \<open>0, ..., m - 1\<close> (missing with \<^verbatim>\<open>aes.S\<close>).
\<close>

definition decrypt_upto ::
    "(nat \<Rightarrow> nat) \<Rightarrow> (byte list \<Rightarrow> block \<Rightarrow> block) \<Rightarrow> byte list \<Rightarrow> block \<Rightarrow> block \<Rightarrow>
     (nat \<Rightarrow> block) \<Rightarrow> nat \<Rightarrow> (nat \<Rightarrow> block) \<times> nat list" where
  "decrypt_upto perm pipeline key iv_s iv_p blocks m =
     fold (decrypt_step perm pipeline key (initial_counter iv_s iv_p)) [0..<m] (blocks, [])"

text \<open>
  Modelled from the spec: the whole block loop of
  \<^verbatim>\<open>decrypt(key4way, iv_salt, iv_public, blocks, nblk)\<close>, physical positions
  \<open>0, ..., nblk - 1\<close> (missing with \<^verbatim>\<open>aes.S\<close>). The result is the block array after the
  call and the slots in the order they were visited.
\<close>

definition decrypt_blocks ::
    "(nat \<Rightarrow> nat) \<Rightarrow> (byte list \<Rightarrow> block \<Rightarrow> block) \<Rightarrow> byte list \<Rightarrow> block \<Rightarrow> block \<Rightarrow>
     (nat \<Rightarrow> block) \<Rightarrow> int \<Rightarrow> (nat \<Rightarrow> block) \<times> nat list" where
  "decrypt_blocks perm pipeline key iv_s iv_p blocks nblk =
     decrypt_upto perm pipeline key iv_s iv_p blocks (nat nblk)"

section \<open>Example inputs\<close>

text \<open>Small concrete inputs at which the theorems below are evaluated.\<close>

definition example_source :: "nat line list" where
  "example_source =
     [Instr 1, Rcp rcp_canary_get [''r0'', ''7''], Instr 2, Rcp rcp_panic [], Instr 9]"

definition example_sem :: "nat \<Rightarrow> nat \<Rightarrow> nat \<Rightarrow> nat outcome" where
  "example_sem i pc s = (if i = 9 then Return s else Goto (Suc pc) (s + i))"

definition example_perm :: "nat \<Rightarrow> nat" where
  "example_perm p = (if p = 0 then 2 else if p = 1 then 0 else if p = 2 then 1 else p)"

definition affine_pipeline :: "byte list \<Rightarrow> block \<Rightarrow> block" where
  "affine_pipeline key c = c * 3 + 1"

definition index_blocks :: "nat \<Rightarrow> block" where
  "index_blocks i = of_nat i"

section \<open>Properties of the RCP stub\<close>

lemma macro_body_check: "m \<noteq> rcp_panic \<Longrightarrow> macro_body m = []"
  by (cases m) simp_all

lemma assemble_append: "assemble (xs @ ys) = assemble xs @ assemble ys"
  by (simp add: assemble_def)

lemma expand_line_check: "is_rcp_check l \<Longrightarrow> expand_line l = []"
  by (cases l) (simp_all add: macro_body_check)

lemma assemble_strip_checks: "assemble (strip_checks prog) = assemble prog"
proof (induction prog)
  case Nil
  show ?case by (simp add: strip_checks_def)
next
  case (Cons l prog)
  have step: "assemble (l # prog) = expand_line l @ assemble prog" for l :: "'a line" and prog
    by (simp add: assemble_def)
  show ?case
  proof (cases "is_rcp_check l")
    case True
    then have "strip_checks (l # prog) = strip_checks prog"
      by (simp add: strip_checks_def)
    with True Cons.IH show ?thesis
      by (simp add: step expand_line_check)
  next
    case False
    then have "strip_checks (l # prog) = l # strip_checks prog"
      by (simp add: strip_checks_def)
    with Cons.IH show ?thesis
      by (simp add: step)
  qed
qed

lemma panic_address:
  assumes "k < length prog" and "prog ! k = Rcp rcp_panic args"
  shows "address prog k < length (assemble prog) \<and> assemble prog ! address prog k = B_self"
proof -
  have "prog = take k prog @ prog ! k # drop (Suc k) prog"
    using assms(1) by (rule id_take_nth_drop)
  then have "assemble prog = assemble (take k prog) @ assemble (prog ! k # drop (Suc k) prog)"
    by (metis assemble_append)
  also have "assemble (prog ! k # drop (Suc k) prog) = B_self # assemble (drop (Suc k) prog)"
    using assms(2) by (simp add: assemble_def)
  finally have "assemble prog = assemble (take k prog) @ B_self # assemble (drop (Suc k) prog)" .
  then show ?thesis
    by (simp add: address_def)
qed

lemma run_B_self:
  "pc < length code \<Longrightarrow> code ! pc = B_self \<Longrightarrow> run sem code fuel pc s = Running"
  by (induction fuel) simp_all

section \<open>Properties of the block loop\<close>

lemma fold_decrypt_step:
  assumes "distinct (map perm ps)"
  shows "fold (decrypt_step perm E key ctr) ps (blocks, tr) =
     (\<lambda>i. if i \<in> perm ` set ps then blocks i XOR E key (ctr + of_nat i) else blocks i,
      tr @ map perm ps)"
  using assms
proof (induction ps arbitrary: blocks tr)
  case Nil
  show ?case by simp
next
  case (Cons p ps)
  define j where "j = perm p"
  define blocks' where "blocks' = blocks(j := blocks j XOR E key (ctr + of_nat j))"
  have fresh: "j \<notin> perm ` set ps" and rest: "distinct (map perm ps)"
    using Cons.prems by (simp_all add: j_def)
  have step: "decrypt_step perm E key ctr p (blocks, tr) = (blocks', tr @ [j])"
    by (simp add: decrypt_step_def Let_def j_def blocks'_def)
  have "(\<lambda>i. if i \<in> perm ` set ps then blocks' i XOR E key (ctr + of_nat i) else blocks' i)
      = (\<lambda>i. if i \<in> perm ` set (p # ps) then blocks i XOR E key (ctr + of_nat i) else blocks i)"
  proof (rule ext)
    fix i
    show "(if i \<in> perm ` set ps then blocks' i XOR E key (ctr + of_nat i) else blocks' i)
        = (if i \<in> perm ` set (p # ps) then blocks i XOR E key (ctr + of_nat i) else blocks i)"
    proof (cases "i = j")
      case True
      with fresh show ?thesis by (simp add: blocks'_def j_def)
    next
      case False
      then show ?thesis by (simp add: blocks'_def j_def)
    qed
  qed
  with Cons.IH[OF rest, of blocks' "tr @ [j]"] step show ?case
    by (simp add: j_def)
qed

lemma perm_distinct_upto:
  assumes "bij_betw perm {0..<n} {0..<n}" and "m \<le> n"
  shows "distinct (map perm [0..<m])"
proof -
  have "inj_on perm {0..<n}"
    using assms(1) by (simp add: bij_betw_def)
  then have "inj_on perm {0..<m}"
    by (rule inj_on_subset) (use assms(2) in auto)
  then show ?thesis by (simp add: distinct_map)
qed

lemma decrypt_upto_eq:
  assumes "bij_betw perm {0..<n} {0..<n}" and "m \<le> n"
  shows "decrypt_upto perm E key salt pub blocks m =
     (\<lambda>i. if i \<in> perm ` {0..<m}
          then blocks i XOR E key (initial_counter salt pub + of_nat i) else blocks i,
      map perm [0..<m])"
  using fold_decrypt_step[OF perm_distinct_upto[OF assms],
      where E = E and key = key and ctr = "initial_counter salt pub" and blocks = blocks
        and tr = "[]"]
  by (simp add: decrypt_upto_def)

lemma decrypt_blocks_eq:
  assumes "bij_betw perm {0..<nat nblk} {0..<nat nblk}"
  shows "decrypt_blocks perm E key salt pub blocks nblk =
     (\<lambda>i. if i < nat nblk
          then blocks i XOR E key (initial_counter salt pub + of_nat i) else blocks i,
      map perm [0..<nat nblk])"
proof -
  have "perm ` {0..<nat nblk} = {0..<nat nblk}"
    using assms by (simp add: bij_betw_def)
  then show ?thesis
    using decrypt_upto_eq[OF assms, of "nat nblk" E key salt pub blocks]
    by (simp add: decrypt_blocks_def)
qed

lemma example_perm_bij: "bij_betw example_perm {0..<3} {0..<3}"
  by (rule bij_betw_byWitness
        [where f' = "\<lambda>q. if q = 2 then 0 else if q = 0 then 1 else if q = 1 then 2 else q"])
     (auto simp add: example_perm_def)

section \<open>The claims\<close>

subsection \<open>The RCP stub (C10)\<close>

text \<open>
  Claim C10. In the emulation build every RCP check macro expands to no instruction at
  all and \<^verbatim>\<open>rcp_panic\<close> expands to the endless loop \<^verbatim>\<open>b .\<close>. Hence, for any assembly
  source \<open>prog\<close> and any meaning \<open>sem\<close> of its ordinary instructions: the assembled
  code is the code of the same source with all RCP checks deleted, so both run alike
  from every address and state; and a run that reaches the address of an
  \<^verbatim>\<open>rcp_panic\<close> line never returns, whatever fuel it is given.
\<close>

theorem rcp_stub_removes_checks:
  fixes prog :: "'i line list" and sem :: "'i \<Rightarrow> nat \<Rightarrow> 's \<Rightarrow> 's outcome"
  shows "(\<forall>m args. m \<noteq> rcp_panic \<longrightarrow> expand_line (Rcp m args) = ([] :: 'i instr list))
     \<and> (\<forall>args. expand_line (Rcp rcp_panic args) = [B_self :: 'i instr])
     \<and> assemble prog = assemble (strip_checks prog)
     \<and> (\<forall>fuel pc s. run sem (assemble prog) fuel pc s
            = run sem (assemble (strip_checks prog)) fuel pc s)
     \<and> (\<forall>k args fuel s. k < length prog \<and> prog ! k = Rcp rcp_panic args
            \<longrightarrow> run sem (assemble prog) fuel (address prog k) s = Running)"
proof (intro conjI allI impI)
  fix m :: rcp_macro and args
  assume "m \<noteq> rcp_panic"
  then show "expand_line (Rcp m args) = ([] :: 'i instr list)"
    by (simp add: macro_body_check)
next
  fix args
  show "expand_line (Rcp rcp_panic args) = [B_self :: 'i instr]"
    by simp
next
  show "assemble prog = assemble (strip_checks prog)"
    by (simp add: assemble_strip_checks)
next
  fix fuel pc s
  show "run sem (assemble prog) fuel pc s = run sem (assemble (strip_checks prog)) fuel pc s"
    by (simp add: assemble_strip_checks)
next
  fix k args fuel s
  assume "k < length prog \<and> prog ! k = Rcp rcp_panic args"
  then have "address prog k < length (assemble prog)"
    and "assemble prog ! address prog k = B_self"
    using panic_address[of k prog args] by simp_all
  then show "run sem (assemble prog) fuel (address prog k) s = Running"
    by (rule run_B_self)
qed

text \<open>
  The theorem at the five-line example source: an instruction, a canary check, an
  instruction, a panic, a returning instruction. The check leaves no code behind;
  started at the panic line (line 3, address 2) the run is still going after ten
  steps, while the same source without the panic line returns.
\<close>

theorem rcp_stub_removes_checks_witness:
  "expand_line (Rcp rcp_canary_get [''r0'', ''7'']) = ([] :: nat instr list)
   \<and> assemble example_source = [Op 1, Op 2, B_self, Op 9]
   \<and> address example_source 3 = 2
   \<and> run example_sem (assemble example_source) 10 (address example_source 3) 0 = Running
   \<and> run example_sem (assemble (take 3 example_source @ drop 4 example_source)) 10 0 0
       = Returned 3"
proof -
  note all = rcp_stub_removes_checks[of example_source example_sem]
  have "3 < length example_source \<and> example_source ! 3 = Rcp rcp_panic []"
    by (simp add: example_source_def)
  with all have panic: "run example_sem (assemble example_source) 10 (address example_source 3) 0
      = Running"
    by blast
  from all have check: "expand_line (Rcp rcp_canary_get [''r0'', ''7'']) = ([] :: nat instr list)"
    by simp
  have code: "assemble example_source = [Op 1, Op 2, B_self, Op 9]"
    by (simp add: assemble_def example_source_def)
  have addr: "address example_source 3 = 2"
    by (simp add: address_def assemble_def example_source_def)
  have ret: "run example_sem (assemble (take 3 example_source @ drop 4 example_source)) 10 0 0
      = Returned 3"
    by code_simp
  from check code addr panic ret show ?thesis
    by (intro conjI)
qed

subsection \<open>The order of visits and the slots written (C5)\<close>

text \<open>
  Claim C5. For every \<open>nblk\<close> from 1 to 32768 and every permutation \<open>perm\<close> of
  \<open>[0, nblk)\<close> drawn for the call: the blocks are visited in the order
  \<open>perm 0, perm 1, ..., perm (nblk - 1)\<close>; once position \<open>p\<close> has been visited, slot
  \<open>perm p\<close> holds the plaintext of logical block \<open>perm p\<close>; after the call every slot
  \<open>i\<close> below \<open>nblk\<close> holds the plaintext of logical block \<open>i\<close>, the ciphertext block
  XORed with the keystream of counter \<open>IV0 + i\<close>; and the slots from \<open>nblk\<close> on are as
  before.
\<close>

theorem decrypt_visit_order_and_slots:
  assumes "1 \<le> nblk" and "nblk \<le> 32768"
    and "bij_betw perm {0..<nat nblk} {0..<nat nblk}"
  shows "snd (decrypt_blocks perm E key salt pub blocks nblk) = map perm [0..<nat nblk]
     \<and> (\<forall>p < nat nblk.
           fst (decrypt_upto perm E key salt pub blocks (Suc p)) (perm p)
           = blocks (perm p) XOR E key (initial_counter salt pub + of_nat (perm p)))
     \<and> (\<forall>i < nat nblk.
           fst (decrypt_blocks perm E key salt pub blocks nblk) i
           = blocks i XOR E key (initial_counter salt pub + of_nat i))
     \<and> (\<forall>i \<ge> nat nblk. fst (decrypt_blocks perm E key salt pub blocks nblk) i = blocks i)"
proof (intro conjI allI impI)
  show "snd (decrypt_blocks perm E key salt pub blocks nblk) = map perm [0..<nat nblk]"
    by (simp add: decrypt_blocks_eq[OF assms(3)])
next
  fix p assume "p < nat nblk"
  then have "Suc p \<le> nat nblk" by simp
  then show "fst (decrypt_upto perm E key salt pub blocks (Suc p)) (perm p)
      = blocks (perm p) XOR E key (initial_counter salt pub + of_nat (perm p))"
    by (simp add: decrypt_upto_eq[OF assms(3)])
next
  fix i assume "i < nat nblk"
  then show "fst (decrypt_blocks perm E key salt pub blocks nblk) i
      = blocks i XOR E key (initial_counter salt pub + of_nat i)"
    by (simp add: decrypt_blocks_eq[OF assms(3)])
next
  fix i assume "nat nblk \<le> i"
  then show "fst (decrypt_blocks perm E key salt pub blocks nblk) i = blocks i"
    by (simp add: decrypt_blocks_eq[OF assms(3)])
qed

text \<open>
  The theorem at \<open>nblk = 3\<close>, with the permutation \<open>0 \<mapsto> 2, 1 \<mapsto> 0, 2 \<mapsto> 1\<close>, IV shares
  5 and 3 (so \<open>IV0 = 6\<close>), the pipeline \<open>c \<mapsto> 3 c + 1\<close> and the block array \<open>i \<mapsto> i\<close>.
  The visits go 2, 0, 1; the first visit writes slot 2; at the end the slots hold
  \<open>0 XOR 19\<close>, \<open>1 XOR 22\<close>, \<open>2 XOR 25\<close> and slot 3 is untouched.
\<close>

theorem decrypt_visit_order_and_slots_witness:
  "snd (decrypt_blocks example_perm affine_pipeline [] 5 3 index_blocks 3) = [2, 0, 1]
   \<and> fst (decrypt_upto example_perm affine_pipeline [] 5 3 index_blocks 1) 2 = 27
   \<and> fst (decrypt_blocks example_perm affine_pipeline [] 5 3 index_blocks 3) 0 = 19
   \<and> fst (decrypt_blocks example_perm affine_pipeline [] 5 3 index_blocks 3) 1 = 23
   \<and> fst (decrypt_blocks example_perm affine_pipeline [] 5 3 index_blocks 3) 2 = 27
   \<and> fst (decrypt_blocks example_perm affine_pipeline [] 5 3 index_blocks 3) 3 = 3"
proof -
  have "(1::int) \<le> 3" and "(3::int) \<le> 32768"
    and "bij_betw example_perm {0..<nat 3} {0..<nat 3}"
    using example_perm_bij by simp_all
  note all = decrypt_visit_order_and_slots[OF this, of affine_pipeline "[]" 5 3 index_blocks]
  have order: "map example_perm [0..<3] = [2, 0, 1]"
    by code_simp
  have first: "example_perm 0 = 2"
    by (simp add: example_perm_def)
  have ctr: "initial_counter 5 3 = (6 :: block)"
    by (simp add: initial_counter_def)
  from all have "snd (decrypt_blocks example_perm affine_pipeline [] 5 3 index_blocks 3)
      = map example_perm [0..<nat 3]"
    by (rule conjunct1)
  with order have c1: "snd (decrypt_blocks example_perm affine_pipeline [] 5 3 index_blocks 3)
      = [2, 0, 1]"
    by simp
  from all have "\<forall>p<nat 3.
      fst (decrypt_upto example_perm affine_pipeline [] 5 3 index_blocks (Suc p)) (example_perm p)
      = index_blocks (example_perm p)
          XOR affine_pipeline [] (initial_counter 5 3 + of_nat (example_perm p))"
    by blast
  then have "fst (decrypt_upto example_perm affine_pipeline [] 5 3 index_blocks (Suc 0))
        (example_perm 0)
      = index_blocks (example_perm 0)
          XOR affine_pipeline [] (initial_counter 5 3 + of_nat (example_perm 0))"
    by simp
  then have c2: "fst (decrypt_upto example_perm affine_pipeline [] 5 3 index_blocks 1) 2 = 27"
    by (simp add: first ctr affine_pipeline_def index_blocks_def)
  from all have slots: "\<forall>i<nat 3.
      fst (decrypt_blocks example_perm affine_pipeline [] 5 3 index_blocks 3) i
      = index_blocks i XOR affine_pipeline [] (initial_counter 5 3 + of_nat i)"
    by blast
  from slots have c3: "fst (decrypt_blocks example_perm affine_pipeline [] 5 3 index_blocks 3) 0
      = 19"
    by (simp add: ctr affine_pipeline_def index_blocks_def)
  have "fst (decrypt_blocks example_perm affine_pipeline [] 5 3 index_blocks 3) (Suc 0)
      = index_blocks (Suc 0) XOR affine_pipeline [] (initial_counter 5 3 + of_nat (Suc 0))"
    using slots by simp
  then have c4: "fst (decrypt_blocks example_perm affine_pipeline [] 5 3 index_blocks 3) 1 = 23"
    by (simp add: ctr affine_pipeline_def index_blocks_def)
  have "fst (decrypt_blocks example_perm affine_pipeline [] 5 3 index_blocks 3) 2
      = index_blocks 2 XOR affine_pipeline [] (initial_counter 5 3 + of_nat 2)"
    using slots by simp
  then have c5: "fst (decrypt_blocks example_perm affine_pipeline [] 5 3 index_blocks 3) 2 = 27"
    by (simp add: ctr affine_pipeline_def index_blocks_def)
  from all have "\<forall>i\<ge>nat 3.
      fst (decrypt_blocks example_perm affine_pipeline [] 5 3 index_blocks 3) i = index_blocks i"
    by blast
  then have c6: "fst (decrypt_blocks example_perm affine_pipeline [] 5 3 index_blocks 3) 3 = 3"
    by (simp add: index_blocks_def)
  from c1 c2 c3 c4 c5 c6 show ?thesis
    by (intro conjI)
qed

end
